theory Spec2Isabelle
  imports Main "HOL-Library.Finite_Map"
begin

section \<open>The Prototype container of opendeep/models/container.py\<close>

text \<open>
  A \<open>Prototype\<close> holds a Python list of models (\<open>self.models\<close>) and, once \<open>predict\<close>
  has compiled it, the attribute \<open>f_predict\<close>. The models are opaque objects of other
  modules; what the container reads from a model is the return value of its \<open>get_*\<close>
  methods, so a model is the record of those values.
\<close>

subsection \<open>Data\<close>

datatype error = IndexError | TypeError | EngineError

text \<open>
  What \<open>get_inputs\<close> looks at in an element of a model's input list:
  \<open>isinstance(input, T.TensorVariable)\<close>, \<open>hasattr(input, 'owner')\<close> and \<open>input.owner\<close>.
  \<open>oid\<close> is the identity of the Python object.
\<close>

datatype owner = NoOwnerAttr | OwnerNone | OwnedBy nat

record pyobj =
  oid :: nat
  is_tensor_variable :: bool
  owner :: owner

type_synonym expr = nat
type_synonym param = nat
type_synonym dict = "(nat, expr) fmap"

text \<open>
  Dicts are mutable objects: a dict is known by its address, and the store gives the
  content of the dict at each address.
\<close>

type_synonym ref = nat
type_synonym store = "ref \<Rightarrow> dict"

text \<open>
  The values a model returns: \<open>get_inputs()\<close>, \<open>get_outputs()\<close>, \<open>get_train_cost()\<close>,
  \<open>get_params()\<close> and \<open>get_updates()\<close>. Python's \<open>None\<close> is \<open>None\<close>. Shared variables
  do not override equality, so a parameter is its identity. \<open>get_updates()\<close> returns
  \<open>None\<close> or a dict object, that is its address in the store.
\<close>

record model =
  m_inputs :: "pyobj list"
  m_outputs :: "expr option"
  m_train_cost :: "expr option"
  m_params :: "param list"
  m_updates :: "ref option"

text \<open>
  The container: the attributes of the object (\<open>models\<close>, and \<open>f_predict\<close> which is
  absent until \<open>predict\<close> sets it) and the records the module's logger has received.
\<close>

record 'f prototype =
  models :: "model list"
  f_predict :: "'f option"
  log :: "string list"

definition init :: "'f prototype" where
  "init = \<lparr>models = [], f_predict = None, log = []\<rparr>"

subsection \<open>Indexing, iteration, add\<close>

text \<open>
  \<open>self.models[item]\<close> for an integer \<open>item\<close>: Python counts a negative index from the
  end and raises IndexError outside \<open>-len .. len - 1\<close>.
\<close>

definition list_index :: "'a list \<Rightarrow> int \<Rightarrow> error + 'a" where
  "list_index xs i =
     (if 0 \<le> i \<and> i < int (length xs) then Inr (xs ! nat i)
      else if - int (length xs) \<le> i \<and> i < 0 then Inr (xs ! nat (int (length xs) + i))
      else Inl IndexError)"

definition getitem :: "'f prototype \<Rightarrow> int \<Rightarrow> error + model" where
  "getitem self item = list_index (models self) item"

text \<open>\<open>__iter__\<close> yields the models one by one; the list of what it yields.\<close>

definition iter :: "'f prototype \<Rightarrow> model list" where
  "iter self = models self"

definition add :: "model \<Rightarrow> 'f prototype \<Rightarrow> 'f prototype" where
  "add m self = self\<lparr>models := models self @ [m]\<rparr>"

subsection \<open>Outputs and training cost\<close>

definition no_models_warning :: string where
  "no_models_warning = ''This container doesn't have any models! So no outputs to get...''"

text \<open>
  Both return the value and the records logged on the way; \<open>Inl\<close> would be a raise.
\<close>

definition get_outputs :: "model list \<Rightarrow> (error + expr option) \<times> string list" where
  "get_outputs ms =
     (if length ms > 0 then
        (case list_index ms (- 1) of Inl e \<Rightarrow> (Inl e, []) | Inr m \<Rightarrow> (Inr (m_outputs m), []))
      else (Inr None, [no_models_warning]))"

definition get_train_cost :: "model list \<Rightarrow> (error + expr option) \<times> string list" where
  "get_train_cost ms =
     (if length ms > 0 then
        (case list_index ms (- 1) of Inl e \<Rightarrow> (Inl e, []) | Inr m \<Rightarrow> (Inr (m_train_cost m), []))
      else (Inr None, [no_models_warning]))"

subsection \<open>Inputs\<close>

text \<open>
  \<open>inputs.extend(input)\<close> iterates over \<open>input\<close> and appends what the iteration yields.
  How a tensor variable iterates is decided by the tensor library, outside this module:
  it is the parameter \<open>iterate\<close>, whose \<open>Inl\<close> is the exception the iteration raises.
\<close>

fun get_inputs_model ::
  "(pyobj \<Rightarrow> error + pyobj list) \<Rightarrow> pyobj list \<Rightarrow> pyobj list \<Rightarrow> error + pyobj list" where
  "get_inputs_model iterate inputs [] = Inr inputs"
| "get_inputs_model iterate inputs (input # rest) =
     (if is_tensor_variable input \<and> owner input \<noteq> NoOwnerAttr then
        (if owner input = OwnerNone then
           (case iterate input of
              Inl e \<Rightarrow> Inl e
            | Inr elems \<Rightarrow> get_inputs_model iterate (inputs @ elems) rest)
         else get_inputs_model iterate inputs rest)
      else get_inputs_model iterate inputs rest)"

fun get_inputs_loop ::
  "(pyobj \<Rightarrow> error + pyobj list) \<Rightarrow> pyobj list \<Rightarrow> model list \<Rightarrow> error + pyobj list" where
  "get_inputs_loop iterate inputs [] = Inr inputs"
| "get_inputs_loop iterate inputs (m # rest) =
     (case get_inputs_model iterate inputs (m_inputs m) of
        Inl e \<Rightarrow> Inl e
      | Inr inputs' \<Rightarrow> get_inputs_loop iterate inputs' rest)"

definition get_inputs :: "(pyobj \<Rightarrow> error + pyobj list) \<Rightarrow> model list \<Rightarrow> error + pyobj list" where
  "get_inputs iterate ms = get_inputs_loop iterate [] ms"

text \<open>
  What the docstring and the comments of \<open>get_inputs\<close> describe ("add it to the running
  inputs list"): the leaves of every model, each one element of the result.
\<close>

definition is_leaf :: "pyobj \<Rightarrow> bool" where
  "is_leaf input \<longleftrightarrow> is_tensor_variable input \<and> owner input = OwnerNone"

definition root_inputs :: "model list \<Rightarrow> pyobj list" where
  "root_inputs ms = concat (map (\<lambda>m. filter is_leaf (m_inputs m)) ms)"

text \<open>
  The two-model pipeline of the example: \<open>U1\<close> reads the leaf \<open>x\<close> and computes \<open>h\<close>,
  \<open>U2\<close> reads \<open>h\<close>. Iterating a matrix variable of the tensor library raises TypeError.
\<close>

definition x_var :: pyobj where
  "x_var = \<lparr>oid = 0, is_tensor_variable = True, owner = OwnerNone\<rparr>"

definition h_var :: pyobj where
  "h_var = \<lparr>oid = 1, is_tensor_variable = True, owner = OwnedBy 0\<rparr>"

definition U1 :: model where
  "U1 = \<lparr>m_inputs = [x_var], m_outputs = Some 1, m_train_cost = None, m_params = [],
          m_updates = None\<rparr>"

definition U2 :: model where
  "U2 = \<lparr>m_inputs = [h_var], m_outputs = Some 2, m_train_cost = None, m_params = [],
          m_updates = None\<rparr>"

definition iterate_matrix :: "pyobj \<Rightarrow> error + pyobj list" where
  "iterate_matrix v = Inl TypeError"

subsection \<open>Updates\<close>

text \<open>
  The loop of \<open>get_updates\<close>. A dict is true when it is not empty, \<open>None\<close> is false.
  \<open>updates = current_updates\<close> copies the address of the model's dict, and
  \<open>updates.update(current_updates)\<close> writes to the dict at that address; the written
  content is \<open>++\<^sub>f\<close>, where the right operand wins on a common key.
\<close>

fun get_updates_loop ::
  "ref option \<Rightarrow> store \<Rightarrow> ref option list \<Rightarrow> ref option \<times> store" where
  "get_updates_loop updates h [] = (updates, h)"
| "get_updates_loop updates h (current_updates # rest) =
     (case (updates, current_updates) of
        (Some u, Some c) \<Rightarrow>
          if h u \<noteq> fmempty \<and> h c \<noteq> fmempty then
            get_updates_loop (Some u) (h(u := h u ++\<^sub>f h c)) rest
          else if h c \<noteq> fmempty then get_updates_loop (Some c) h rest
          else get_updates_loop updates h rest
      | (None, Some c) \<Rightarrow>
          if h c \<noteq> fmempty then get_updates_loop (Some c) h rest
          else get_updates_loop updates h rest
      | (_, None) \<Rightarrow> get_updates_loop updates h rest)"

definition get_updates :: "store \<Rightarrow> model list \<Rightarrow> ref option \<times> store" where
  "get_updates h ms = get_updates_loop None h (map m_updates ms)"

text \<open>
  A model has updates when it returns a dict that is not empty; \<open>updates_of\<close> is the
  mapping it contributes, nothing for \<open>None\<close>.
\<close>

definition has_updates :: "store \<Rightarrow> model \<Rightarrow> bool" where
  "has_updates h m \<longleftrightarrow> (case m_updates m of None \<Rightarrow> False | Some r \<Rightarrow> h r \<noteq> fmempty)"

definition updates_of :: "store \<Rightarrow> model \<Rightarrow> dict" where
  "updates_of h m = (case m_updates m of None \<Rightarrow> fmempty | Some r \<Rightarrow> h r)"

text \<open>The addresses of the non-empty dicts the models return, in pipeline order.\<close>

fun contributing :: "store \<Rightarrow> ref option list \<Rightarrow> ref list" where
  "contributing h [] = []"
| "contributing h (None # rest) = contributing h rest"
| "contributing h (Some r # rest) =
     (if h r \<noteq> fmempty then r # contributing h rest else contributing h rest)"

text \<open>
  The merge of the dicts at the addresses \<open>later\<close> that are other objects than \<open>r0\<close>.
\<close>

definition merged_later :: "store \<Rightarrow> ref \<Rightarrow> ref list \<Rightarrow> dict" where
  "merged_later h r0 later = foldl (++\<^sub>f) fmempty (map h (filter (\<lambda>r. r \<noteq> r0) later))"

subsection \<open>Parameters\<close>

fun get_params_model :: "param list \<Rightarrow> param list \<Rightarrow> param list" where
  "get_params_model params [] = params"
| "get_params_model params (p # rest) =
     get_params_model (if p \<notin> set params then params @ [p] else params) rest"

fun get_params_loop :: "param list \<Rightarrow> model list \<Rightarrow> param list" where
  "get_params_loop params [] = params"
| "get_params_loop params (m # rest) =
     get_params_loop (get_params_model params (m_params m)) rest"

definition get_params :: "model list \<Rightarrow> param list" where
  "get_params ms = get_params_loop [] ms"


subsection \<open>Prediction\<close>

text \<open>
  \<open>opendeep.function\<close> compiles a function of the tensor engine and may raise; calling
  the compiled function is the engine's work too. Both are parameters; the compilation
  reads the content of the updates dict. \<open>log.info\<close> adds a record to the log. The call
  returns its value, the container and the store.
\<close>

definition compiling_msg :: string where
  "compiling_msg = ''Compiling f_predict...''"

definition compiled_msg :: string where
  "compiled_msg = ''Compilation done! Took ''"

definition predict ::
  "(pyobj \<Rightarrow> error + pyobj list) \<Rightarrow>
   (pyobj list \<Rightarrow> expr option \<Rightarrow> dict option \<Rightarrow> error + 'f) \<Rightarrow>
   ('f \<Rightarrow> 'i \<Rightarrow> error + 'o) \<Rightarrow> 'i \<Rightarrow> 'f prototype \<Rightarrow> store \<Rightarrow>
   (error + 'o) \<times> 'f prototype \<times> store" where
  "predict iterate compile call input self h =
     (case f_predict self of
        Some f \<Rightarrow> (call f input, self, h)
      | None \<Rightarrow>
          (case get_inputs iterate (models self) of
             Inl e \<Rightarrow> (Inl e, self, h)
           | Inr inputs \<Rightarrow>
               (case get_outputs (models self) of
                  (Inl e, w) \<Rightarrow> (Inl e, self\<lparr>log := log self @ w\<rparr>, h)
                | (Inr outputs, w) \<Rightarrow>
                    (case get_updates h (models self) of
                       (updates, h') \<Rightarrow>
                         (let self1 = self\<lparr>log := log self @ w @ [compiling_msg]\<rparr>
                          in case compile inputs outputs (map_option h' updates) of
                               Inl e \<Rightarrow> (Inl e, self1, h')
                             | Inr f \<Rightarrow>
                                 (call f input,
                                  self1\<lparr>f_predict := Some f,
                                        log := log self1 @ [compiled_msg]\<rparr>,
                                  h'))))))"

text \<open>
  A caller's sequence of \<open>add\<close> and \<open>predict\<close> calls on the container and the store,
  exceptions caught by the caller.
\<close>

datatype 'i call = Add model | Predict 'i

definition exec ::
  "(pyobj \<Rightarrow> error + pyobj list) \<Rightarrow>
   (pyobj list \<Rightarrow> expr option \<Rightarrow> dict option \<Rightarrow> error + 'f) \<Rightarrow>
   ('f \<Rightarrow> 'i \<Rightarrow> error + 'o) \<Rightarrow> 'f prototype \<times> store \<Rightarrow> 'i call \<Rightarrow> 'f prototype \<times> store" where
  "exec iterate compile call st c =
     (case c of
        Add m \<Rightarrow> (add m (fst st), snd st)
      | Predict input \<Rightarrow> snd (predict iterate compile call input (fst st) (snd st)))"

definition run ::
  "(pyobj \<Rightarrow> error + pyobj list) \<Rightarrow>
   (pyobj list \<Rightarrow> expr option \<Rightarrow> dict option \<Rightarrow> error + 'f) \<Rightarrow>
   ('f \<Rightarrow> 'i \<Rightarrow> error + 'o) \<Rightarrow> 'f prototype \<times> store \<Rightarrow> 'i call list \<Rightarrow>
   'f prototype \<times> store" where
  "run iterate compile call st cs = foldl (exec iterate compile call) st cs"

text \<open>How many times a compilation was started: the "Compiling" records in the log.\<close>

definition compilations :: "'f prototype \<Rightarrow> nat" where
  "compilations self = length (filter (\<lambda>r. r = compiling_msg) (log self))"

subsection \<open>Values used in the examples\<close>

text \<open>
  A store with the dict \<open>{7: 10}\<close> at address \<open>0\<close> and \<open>{7: 20, 8: 30}\<close> at address
  \<open>1\<close>, and the models \<open>A1\<close> and \<open>A2\<close> that return these objects. In \<open>store_same\<close>
  both addresses hold \<open>{7: 10}\<close>.
\<close>

definition store0 :: store where
  "store0 = (\<lambda>r. fmempty)(0 := fmupd 7 10 fmempty, 1 := fmupd 8 30 (fmupd 7 20 fmempty))"

definition store_same :: store where
  "store_same = (\<lambda>r. fmempty)(0 := fmupd 7 10 fmempty, 1 := fmupd 7 10 fmempty)"

definition A1 :: model where
  "A1 = \<lparr>m_inputs = [], m_outputs = None, m_train_cost = None, m_params = [],
          m_updates = Some 0\<rparr>"

definition A2 :: model where
  "A2 = \<lparr>m_inputs = [], m_outputs = None, m_train_cost = None, m_params = [],
          m_updates = Some 1\<rparr>"

text \<open>
  An engine for the examples: compiling keeps the three arguments and calling the
  compiled function returns the input; \<open>compile_picky\<close> fails on the graph whose output
  is \<open>2\<close>. The container \<open>one_model\<close> holds \<open>U2\<close>, which has no leaf input; \<open>U3\<close> is
  a further model without leaf input.
\<close>

type_synonym snapshot = "pyobj list \<times> expr option \<times> dict option"

definition compile_snapshot ::
  "pyobj list \<Rightarrow> expr option \<Rightarrow> dict option \<Rightarrow> error + snapshot" where
  "compile_snapshot ins outs upd = Inr (ins, outs, upd)"

definition compile_picky ::
  "pyobj list \<Rightarrow> expr option \<Rightarrow> dict option \<Rightarrow> error + snapshot" where
  "compile_picky ins outs upd = (if outs = Some 2 then Inl EngineError else Inr (ins, outs, upd))"

definition call_echo :: "snapshot \<Rightarrow> nat \<Rightarrow> error + nat" where
  "call_echo f v = Inr v"

definition one_model :: "snapshot prototype" where
  "one_model = add U2 init"

definition U3 :: model where
  "U3 = \<lparr>m_inputs = [h_var], m_outputs = Some 3, m_train_cost = None, m_params = [],
          m_updates = None\<rparr>"

section \<open>Properties\<close>

lemma models_foldl_add:
  "models (foldl (\<lambda>c m. add m c) c ms) = models c @ ms"
  by (induction ms arbitrary: c) (simp_all add: add_def)

lemma list_index_last:
  "ms \<noteq> [] \<Longrightarrow> list_index ms (- 1) = Inr (last ms)"
  by (cases ms rule: rev_cases) (auto simp: list_index_def nth_append)

subsection \<open>add, indexing and iteration\<close>

text \<open>
  C7. After any sequence of \<open>add\<close> calls on a fresh container, \<open>get(i)\<close> returns the
  i-th added model for every position \<open>i\<close> below the number of models, and iterating
  the container yields the models in the order they were added.
\<close>

theorem add_then_get_and_iter:
  "(\<forall>i < length us.
      getitem (foldl (\<lambda>c m. add m c) (init :: 'f prototype) us) (int i) = Inr (us ! i))
   \<and> iter (foldl (\<lambda>c m. add m c) (init :: 'f prototype) us) = us"
  by (simp add: getitem_def iter_def list_index_def models_foldl_add init_def)

theorem add_then_get_and_iter_witness:
  "getitem (add U2 (add U1 (init :: unit prototype))) 0 = Inr U1
   \<and> getitem (add U2 (add U1 (init :: unit prototype))) 1 = Inr U2
   \<and> iter (add U2 (add U1 (init :: unit prototype))) = [U1, U2]"
  using add_then_get_and_iter [where ?'f = unit, of "[U1, U2]"]
  by (simp add: All_less_Suc2)

text \<open>
  C8, as stated, fails: \<open>-1\<close> is not a position of a one-model pipeline (positions are
  \<open>0 .. len - 1\<close>), yet \<open>get(-1)\<close> returns the model and raises nothing.
\<close>

theorem getitem_minus_one_counterexample:
  "\<not> (0 \<le> (- 1 :: int)
       \<and> (- 1 :: int) < int (length (models (add U1 (init :: unit prototype)))))
   \<and> getitem (add U1 (init :: unit prototype)) (- 1) = Inr U1"
  by (simp add: getitem_def list_index_def add_def init_def)

text \<open>
  C8, amended. \<open>get(index)\<close> returns the model at position \<open>index\<close> when
  \<open>0 \<le> index < len\<close>, and it raises IndexError exactly when \<open>index < -len\<close> or
  \<open>index \<ge> len\<close>.
\<close>

theorem getitem_range:
  "(0 \<le> i \<and> i < int (length (models self)) \<longrightarrow> getitem self i = Inr (models self ! nat i))
   \<and> (getitem self i = Inl IndexError
        \<longleftrightarrow> i < - int (length (models self)) \<or> int (length (models self)) \<le> i)"
  by (auto simp: getitem_def list_index_def)

theorem getitem_range_witness:
  "(0 \<le> (1::int) \<and> (1::int) < int (length (models (add U2 (add U1 (init :: unit prototype))))))
   \<and> getitem (add U2 (add U1 (init :: unit prototype))) 1 = Inr U2
   \<and> getitem (add U2 (add U1 (init :: unit prototype))) 2 = Inl IndexError
   \<and> getitem (add U2 (add U1 (init :: unit prototype))) (- 3) = Inl IndexError"
  using getitem_range [of 1 "add U2 (add U1 (init :: unit prototype))"]
        getitem_range [of 2 "add U2 (add U1 (init :: unit prototype))"]
        getitem_range [of "- 3" "add U2 (add U1 (init :: unit prototype))"]
  by (simp add: add_def init_def)

text \<open>
  C10. In a pipeline of \<open>n \<ge> 1\<close> models, \<open>get(-k)\<close> for \<open>1 \<le> k \<le> n\<close> raises nothing
  and returns the model at position \<open>n - k\<close>; \<open>get(-1)\<close> returns the model added last.
\<close>

theorem getitem_negative:
  "(1 \<le> k \<and> k \<le> length (models self) \<longrightarrow>
      getitem self (- int k) = Inr (models self ! (length (models self) - k)))
   \<and> getitem (add m self) (- 1) = Inr m"
proof -
  have "getitem self (- int k) = Inr (models self ! (length (models self) - k))"
    if "1 \<le> k" "k \<le> length (models self)"
  proof -
    have "int (length (models self)) + - int k = int (length (models self) - k)"
      using that by simp
    then show ?thesis
      using that by (simp add: getitem_def list_index_def del: of_nat_diff)
  qed
  moreover have "getitem (add m self) (- 1) = Inr m"
    by (simp add: getitem_def add_def list_index_last)
  ultimately show ?thesis by blast
qed

theorem getitem_negative_witness:
  "(1 \<le> (2::nat) \<and> (2::nat) \<le> length (models (add U2 (add U1 (init :: unit prototype)))))
   \<and> getitem (add U2 (add U1 (init :: unit prototype))) (- 2) = Inr U1
   \<and> getitem (add U2 (add U1 (init :: unit prototype))) (- 1) = Inr U2"
  using getitem_negative [of 2 "add U2 (add U1 (init :: unit prototype))"]
        getitem_negative [of 0 "add U1 (init :: unit prototype)" U2]
  by (simp add: add_def init_def)

subsection \<open>Outputs and training cost\<close>

text \<open>
  C5. On a container with at least one model, \<open>get_outputs()\<close> raises nothing, logs
  nothing and returns what \<open>get_outputs()\<close> of the model at position \<open>len - 1\<close> returns.
\<close>

theorem get_outputs_last:
  "models self \<noteq> [] \<Longrightarrow>
     \<exists>u. getitem self (int (length (models self)) - 1) = Inr u
        \<and> get_outputs (models self) = (Inr (m_outputs u), [])"
proof -
  assume ne: "models self \<noteq> []"
  then have "getitem self (int (length (models self)) - 1) = Inr (last (models self))"
    by (cases "models self" rule: rev_cases) (auto simp: getitem_def list_index_def nth_append)
  moreover have "get_outputs (models self) = (Inr (m_outputs (last (models self))), [])"
    using ne by (simp add: get_outputs_def list_index_last)
  ultimately show ?thesis by blast
qed

theorem get_outputs_last_witness:
  "models (add U2 (add U1 (init :: unit prototype))) \<noteq> []
   \<and> getitem (add U2 (add U1 (init :: unit prototype))) 1 = Inr U2
   \<and> get_outputs (models (add U2 (add U1 (init :: unit prototype)))) = (Inr (Some 2), [])"
  using get_outputs_last [of "add U2 (add U1 (init :: unit prototype))"]
  by (auto simp: add_def init_def getitem_def list_index_def U2_def)

text \<open>
  C6. On a container without models, \<open>get_outputs()\<close> and \<open>get_train_cost()\<close> each
  return \<open>None\<close> without raising, after one warning has gone to the log.
\<close>

theorem empty_pipeline_warns:
  "get_outputs (models init) = (Inr None, [no_models_warning])
   \<and> get_train_cost (models init) = (Inr None, [no_models_warning])"
  by (simp add: get_outputs_def get_train_cost_def init_def)

subsection \<open>Parameters\<close>

lemma get_params_model_append:
  "get_params_model acc (xs @ ys) = get_params_model (get_params_model acc xs) ys"
  by (induction xs arbitrary: acc) simp_all

lemma get_params_loop_concat:
  "get_params_loop acc ms = get_params_model acc (concat (map m_params ms))"
  by (induction ms arbitrary: acc) (simp_all add: get_params_model_append)

lemma get_params_model_distinct:
  "distinct acc \<Longrightarrow> distinct (get_params_model acc ps)"
  by (induction ps arbitrary: acc) simp_all

lemma get_params_model_set:
  "set (get_params_model acc ps) = set acc \<union> set ps"
  by (induction ps arbitrary: acc) auto

lemma get_params_model_positions:
  "get_params_model acc ps =
     acc @ map (\<lambda>i. ps ! i)
             (filter (\<lambda>i. ps ! i \<notin> set acc \<union> set (take i ps)) [0..<length ps])"
proof (induction ps arbitrary: acc)
  case Nil
  show ?case by simp
next
  case (Cons p rest)
  have "[0..<Suc (length rest)] = 0 # [Suc 0..<Suc (length rest)]"
    by (rule upt_conv_Cons) simp
  then have upt: "[0..<length (p # rest)] = 0 # map Suc [0..<length rest]"
    by (simp only: length_Cons map_Suc_upt)
  show ?case
  proof (cases "p \<in> set acc")
    case True
    then have "(y \<notin> set acc \<and> y \<noteq> p \<and> Q) = (y \<notin> set acc \<and> Q)" for y Q
      by auto
    with True show ?thesis
      by (simp only: upt) (simp add: Cons.IH filter_map comp_def)
  next
    case False
    then show ?thesis
      by (simp only: upt) (simp add: Cons.IH filter_map comp_def conj_left_commute)
  qed
qed

text \<open>
  C4. \<open>get_params()\<close> holds no parameter twice, holds exactly the parameters of the
  models, and lists them in the order of their first occurrence: with \<open>ps\<close> the
  concatenation of the models' parameter lists in pipeline order, the result is the
  elements of \<open>ps\<close> at the positions that no earlier position of \<open>ps\<close> repeats.
\<close>

theorem get_params_first_occurrences:
  "distinct (get_params ms)
   \<and> set (get_params ms) = set (concat (map m_params ms))
   \<and> get_params ms =
       (let ps = concat (map m_params ms)
        in map (\<lambda>i. ps ! i) (filter (\<lambda>i. ps ! i \<notin> set (take i ps)) [0..<length ps]))"
proof -
  have eq: "get_params ms = get_params_model [] (concat (map m_params ms))"
    by (simp add: get_params_def get_params_loop_concat)
  have "distinct (get_params ms)"
    unfolding eq by (rule get_params_model_distinct) simp
  moreover have "set (get_params ms) = set (concat (map m_params ms))"
    unfolding eq by (simp only: get_params_model_set) simp
  moreover have "get_params ms =
       (let ps = concat (map m_params ms)
        in map (\<lambda>i. ps ! i) (filter (\<lambda>i. ps ! i \<notin> set (take i ps)) [0..<length ps]))"
    unfolding eq Let_def by (subst get_params_model_positions) simp
  ultimately show ?thesis by blast
qed

lemma get_params_shared_example:
  "get_params [U1\<lparr>m_params := [3, 5, 3]\<rparr>, U2\<lparr>m_params := [7, 5, 9]\<rparr>] = [3, 5, 7, 9]"
  by (simp add: get_params_def)

subsection \<open>Updates\<close>

lemma fmadd_nonempty: "c \<noteq> fmempty \<Longrightarrow> u ++\<^sub>f c \<noteq> fmempty"
proof
  assume ne: "c \<noteq> fmempty" and e: "u ++\<^sub>f c = fmempty"
  have "fmlookup c k = None" for k
  proof -
    have "fmlookup (u ++\<^sub>f c) k = None" by (simp only: e fmempty_lookup)
    then show ?thesis by (cases "fmlookup c k") (auto simp: fmlookup_dom_iff)
  qed
  then have "c = fmempty" by (intro fmap_ext) simp
  with ne show False by simp
qed

lemma fmadd_unchanged_iff:
  "m ++\<^sub>f l = m \<longleftrightarrow> (\<forall>k v. fmlookup l k = Some v \<longrightarrow> fmlookup m k = Some v)"
proof
  assume e: "m ++\<^sub>f l = m"
  show "\<forall>k v. fmlookup l k = Some v \<longrightarrow> fmlookup m k = Some v"
  proof (intro allI impI)
    fix k v
    assume "fmlookup l k = Some v"
    then have "fmlookup (m ++\<^sub>f l) k = Some v" by (simp add: fmlookup_dom_iff)
    with e show "fmlookup m k = Some v" by simp
  qed
next
  assume a: "\<forall>k v. fmlookup l k = Some v \<longrightarrow> fmlookup m k = Some v"
  show "m ++\<^sub>f l = m"
  proof (rule fmap_ext)
    fix k
    show "fmlookup (m ++\<^sub>f l) k = fmlookup m k"
      using a by (cases "fmlookup l k") (auto simp: fmlookup_dom_iff)
  qed
qed

lemma foldl_fmadd_start:
  "foldl (++\<^sub>f) acc ds = acc ++\<^sub>f foldl (++\<^sub>f) fmempty ds"
  by (induction ds rule: rev_induct) simp_all

lemma foldl_fmadd_lookup_unset:
  "\<forall>d \<in> set ds. fmlookup d k = None \<Longrightarrow> fmlookup (foldl (++\<^sub>f) acc ds) k = fmlookup acc k"
  by (induction ds arbitrary: acc) (simp_all add: fmlookup_dom_iff)

lemma foldl_fmadd_lookup_last:
  assumes "fmlookup d k = Some v" and "\<forall>d' \<in> set post. fmlookup d' k = None"
  shows "fmlookup (foldl (++\<^sub>f) acc (pre @ d # post)) k = Some v"
  using assms by (simp add: foldl_fmadd_lookup_unset fmlookup_dom_iff)

lemma contributing_filter_upd:
  "filter (\<lambda>r. r \<noteq> u) (contributing (h(u := X)) rs) = filter (\<lambda>r. r \<noteq> u) (contributing h rs)"
proof (induction rs)
  case Nil
  show ?case by simp
next
  case (Cons r rs)
  then show ?case by (cases r) auto
qed

lemma get_updates_loop_Some:
  "h u \<noteq> fmempty \<Longrightarrow>
     get_updates_loop (Some u) h rs =
       (Some u, h(u := foldl (++\<^sub>f) (h u) (map h (filter (\<lambda>r. r \<noteq> u) (contributing h rs)))))"
proof (induction rs arbitrary: h)
  case Nil
  show ?case by simp
next
  case (Cons r rs)
  show ?case
  proof (cases r)
    case None
    with Cons show ?thesis by simp
  next
    case (Some c)
    show ?thesis
    proof (cases "h c = fmempty")
      case True
      with Some Cons show ?thesis by simp
    next
      case False
      show ?thesis
      proof (cases "c = u")
        case True
        then have "h(u := h u ++\<^sub>f h c) = h" by auto
        with True Some False Cons show ?thesis by simp
      next
        case diff: False
        let ?h = "h(u := h u ++\<^sub>f h c)"
        have ne: "?h u \<noteq> fmempty" using False by (simp add: fmadd_nonempty)
        have m: "map ?h (filter (\<lambda>r. r \<noteq> u) xs) = map h (filter (\<lambda>r. r \<noteq> u) xs)" for xs
          by (induction xs) auto
        have "get_updates_loop (Some u) ?h rs =
                (Some u, ?h(u := foldl (++\<^sub>f) (?h u)
                   (map ?h (filter (\<lambda>r. r \<noteq> u) (contributing ?h rs)))))"
          using ne by (rule Cons.IH)
        with Some False diff Cons.prems show ?thesis
          by (simp add: contributing_filter_upd m) (simp add: fun_upd_def)
      qed
    qed
  qed
qed

lemma get_updates_loop_None:
  "get_updates_loop None h rs =
     (case contributing h rs of
        [] \<Rightarrow> (None, h)
      | r0 # later \<Rightarrow>
          (Some r0, h(r0 := foldl (++\<^sub>f) (h r0) (map h (filter (\<lambda>r. r \<noteq> r0) later)))))"
proof (induction rs)
  case Nil
  show ?case by simp
next
  case (Cons r rs)
  show ?case
  proof (cases r)
    case None
    with Cons show ?thesis by simp
  next
    case (Some c)
    with Cons show ?thesis by (simp add: get_updates_loop_Some)
  qed
qed

lemma get_updates_first:
  "contributing h (map m_updates ms) = r0 # later \<Longrightarrow>
     get_updates h ms = (Some r0, h(r0 := h r0 ++\<^sub>f merged_later h r0 later))"
  using foldl_fmadd_start [of "h r0" "map h (filter (\<lambda>r. r \<noteq> r0) later)"]
  by (simp add: get_updates_def get_updates_loop_None merged_later_def)

lemma contributing_Nil_iff:
  "contributing h (map m_updates ms) = [] \<longleftrightarrow> (\<forall>m \<in> set ms. \<not> has_updates h m)"
proof (induction ms)
  case Nil
  show ?case by simp
next
  case (Cons m ms)
  then show ?case by (cases "m_updates m") (simp_all add: has_updates_def)
qed

lemma foldl_fmadd_contributing:
  "foldl (++\<^sub>f) acc (map (updates_of h) ms)
     = foldl (++\<^sub>f) acc (map h (contributing h (map m_updates ms)))"
proof (induction ms arbitrary: acc)
  case Nil
  show ?case by simp
next
  case (Cons m ms)
  then show ?case by (cases "m_updates m") (simp_all add: updates_of_def)
qed

lemma get_updates_no_alias:
  assumes "contributing h (map m_updates ms) = r0 # later" and "r0 \<notin> set later"
  shows "get_updates h ms =
           (Some r0, h(r0 := foldl (++\<^sub>f) fmempty (map (updates_of h) ms)))"
proof -
  from assms(2) have "filter (\<lambda>r. r \<noteq> r0) later = later"
    by (auto simp: filter_id_conv)
  then have "h r0 ++\<^sub>f merged_later h r0 later = foldl (++\<^sub>f) (h r0) (map h later)"
    using foldl_fmadd_start [of "h r0" "map h later"] by (simp add: merged_later_def)
  also have "\<dots> = foldl (++\<^sub>f) fmempty (map (updates_of h) ms)"
    by (simp add: foldl_fmadd_contributing assms(1))
  finally show ?thesis using get_updates_first [OF assms(1)] by simp
qed

text \<open>
  C2, as stated, fails. In the pipeline \<open>A2\<close>, \<open>A1\<close>, \<open>A2\<close> two models have updates, and
  the merge of their mappings \<open>{7: 20, 8: 30}\<close>, \<open>{7: 10}\<close>, \<open>{7: 20, 8: 30}\<close> in pipeline
  order, the later one winning, maps \<open>7\<close> to \<open>20\<close>. The code writes the dict of \<open>A1\<close>
  into the dict object of \<open>A2\<close> and then merges that object with itself: the returned
  dict maps \<open>7\<close> to \<open>10\<close>.
\<close>

theorem get_updates_alias_counterexample:
  "has_updates store0 A2 \<and> has_updates store0 A1
   \<and> fmlookup (foldl (++\<^sub>f) fmempty (map (updates_of store0) [A2, A1, A2])) 7 = Some 20
   \<and> fst (get_updates store0 [A2, A1, A2]) = Some 1
   \<and> fmlookup (snd (get_updates store0 [A2, A1, A2]) 1) 7 = Some 10"
  by (simp add: get_updates_def has_updates_def updates_of_def store0_def A1_def A2_def)

text \<open>
  C2, amended. When no model has updates (each returns \<open>None\<close> or an empty dict),
  \<open>get_updates()\<close> returns \<open>None\<close> and writes nothing. When some model has updates, so
  in particular when two or more have, and the dict object of the first such model is
  not returned again by a later model, it returns that object, which then holds the
  merge of the models' mappings in pipeline order, the later mapping winning on a common
  key: a key that a model maps to \<open>v\<close> and that no later model defines is mapped to \<open>v\<close>.
\<close>

theorem get_updates_merge:
  "((\<forall>m \<in> set ms. \<not> has_updates h m) \<longrightarrow> get_updates h ms = (None, h))
   \<and> (contributing h (map m_updates ms) = r0 # later \<and> r0 \<notin> set later \<longrightarrow>
        fst (get_updates h ms) = Some r0
        \<and> snd (get_updates h ms) r0 = foldl (++\<^sub>f) fmempty (map (updates_of h) ms)
        \<and> (ms = pre @ m # post \<and> fmlookup (updates_of h m) k = Some v
             \<and> (\<forall>m' \<in> set post. fmlookup (updates_of h m') k = None) \<longrightarrow>
             fmlookup (snd (get_updates h ms) r0) k = Some v))"
proof (intro conjI impI)
  assume "\<forall>m \<in> set ms. \<not> has_updates h m"
  then have "contributing h (map m_updates ms) = []" by (simp add: contributing_Nil_iff)
  then show "get_updates h ms = (None, h)"
    by (simp add: get_updates_def get_updates_loop_None)
next
  assume a: "contributing h (map m_updates ms) = r0 # later \<and> r0 \<notin> set later"
  then have g: "get_updates h ms =
      (Some r0, h(r0 := foldl (++\<^sub>f) fmempty (map (updates_of h) ms)))"
    by (simp add: get_updates_no_alias)
  from g show "fst (get_updates h ms) = Some r0" by simp
  from g show "snd (get_updates h ms) r0 = foldl (++\<^sub>f) fmempty (map (updates_of h) ms)"
    by simp
  assume b: "ms = pre @ m # post \<and> fmlookup (updates_of h m) k = Some v
             \<and> (\<forall>m' \<in> set post. fmlookup (updates_of h m') k = None)"
  have "fmlookup (foldl (++\<^sub>f) fmempty (map (updates_of h) ms)) k = Some v"
    using b foldl_fmadd_lookup_last [of "updates_of h m" k v "map (updates_of h) post" fmempty
        "map (updates_of h) pre"]
    by simp
  with g show "fmlookup (snd (get_updates h ms) r0) k = Some v" by simp
qed

theorem get_updates_merge_witness:
  "get_updates store0 [U1, U2] = (None, store0)
   \<and> contributing store0 (map m_updates [A1, U1, A2]) = [0, 1]
   \<and> fst (get_updates store0 [A1, U1, A2]) = Some 0
   \<and> fmlookup (updates_of store0 A1) 7 = Some 10
   \<and> fmlookup (updates_of store0 A2) 7 = Some 20
   \<and> fmlookup (snd (get_updates store0 [A1, U1, A2]) 0) 7 = Some 20"
  using get_updates_merge [of "[U1, U2]" store0 0 "[]" "[]" U1 "[U2]" 0 0]
        get_updates_merge [of "[A1, U1, A2]" store0 0 "[1]" "[A1, U1]" A2 "[]" 7 20]
  by (simp add: has_updates_def updates_of_def U1_def U2_def A1_def A2_def store0_def)

text \<open>
  C9, as stated, fails. In \<open>store_same\<close> the models \<open>A1\<close> and \<open>A2\<close> both contribute a
  non-empty dict, of the same content. \<open>get_updates()\<close> returns the object of \<open>A1\<close>, and
  after the call that object and the whole store are as they were.
\<close>

theorem get_updates_unchanged_counterexample:
  "contributing store_same (map m_updates [A1, A2]) = [0, 1]
   \<and> fst (get_updates store_same [A1, A2]) = Some 0
   \<and> snd (get_updates store_same [A1, A2]) = store_same"
  by (simp add: get_updates_def store_same_def A1_def A2_def) (rule ext, simp)

text \<open>
  C9, amended. When some model returns a non-empty dict, \<open>get_updates()\<close> returns the
  very dict object of the first such model; the entries of the later contributing
  models are merged into that object in place, and no other dict is written. The
  content of the object changes exactly when the merge of the later contributing dicts
  that are other objects has an entry that the object did not already hold with the
  same value; otherwise (equal content, or the same object again) it is left as it was.
\<close>

theorem get_updates_in_place:
  assumes "contributing h (map m_updates ms) = r0 # later"
  shows "fst (get_updates h ms) = Some r0
    \<and> snd (get_updates h ms) = h(r0 := h r0 ++\<^sub>f merged_later h r0 later)
    \<and> (snd (get_updates h ms) r0 = h r0 \<longleftrightarrow>
         (\<forall>k v. fmlookup (merged_later h r0 later) k = Some v \<longrightarrow> fmlookup (h r0) k = Some v))"
  using get_updates_first [OF assms] fmadd_unchanged_iff [of "h r0" "merged_later h r0 later"]
  by simp

theorem get_updates_in_place_witness:
  "contributing store0 (map m_updates [A1, U1, A2]) = [0, 1]
   \<and> fst (get_updates store0 [A1, U1, A2]) = Some 0
   \<and> fmlookup (merged_later store0 0 [1]) 8 = Some 30
   \<and> fmlookup (store0 0) 8 = None
   \<and> fmlookup (snd (get_updates store0 [A1, U1, A2]) 0) 8 = Some 30
   \<and> snd (get_updates store0 [A1, U1, A2]) 1 = store0 1
   \<and> snd (get_updates store0 [A1, U1, A2]) 0 \<noteq> store0 0"
proof -
  have c: "contributing store0 (map m_updates [A1, U1, A2]) = [0, 1]"
    by (simp add: store0_def A1_def A2_def U1_def)
  have l: "fmlookup (merged_later store0 0 [1]) 8 = Some 30"
    by (simp add: merged_later_def store0_def)
  have n: "fmlookup (store0 0) 8 = None"
    by (simp add: store0_def)
  note t = get_updates_in_place [OF c]
  from t have 1: "fst (get_updates store0 [A1, U1, A2]) = Some 0"
    by blast
  from t have 2: "snd (get_updates store0 [A1, U1, A2])
      = store0(0 := store0 0 ++\<^sub>f merged_later store0 0 [1])"
    by blast
  from t have 3: "snd (get_updates store0 [A1, U1, A2]) 0 = store0 0 \<longleftrightarrow>
      (\<forall>k v. fmlookup (merged_later store0 0 [1]) k = Some v
         \<longrightarrow> fmlookup (store0 0) k = Some v)"
    by blast
  from l n have "\<not> (\<forall>k v. fmlookup (merged_later store0 0 [1]) k = Some v
      \<longrightarrow> fmlookup (store0 0) k = Some v)"
    by (metis option.distinct(1))
  with 3 have 4: "snd (get_updates store0 [A1, U1, A2]) 0 \<noteq> store0 0"
    by blast
  from l have 5: "fmlookup (snd (get_updates store0 [A1, U1, A2]) 0) 8 = Some 30"
    by (simp add: 2 fmlookup_dom_iff)
  have 6: "snd (get_updates store0 [A1, U1, A2]) 1 = store0 1"
    by (simp add: 2)
  from c 1 l n 5 6 4 show ?thesis by blast
qed

subsection \<open>Inputs\<close>

text \<open>
  With an iteration that yields the variable itself, that is with \<open>append\<close> in the
  place of \<open>extend\<close>, the loop returns the leaves of the models in pipeline order.
\<close>

lemma get_inputs_model_append_semantics:
  "get_inputs_model (\<lambda>v. Inr [v]) acc xs = Inr (acc @ filter is_leaf xs)"
  by (induction xs arbitrary: acc) (auto simp: is_leaf_def)

lemma get_inputs_loop_append_semantics:
  "get_inputs_loop (\<lambda>v. Inr [v]) acc ms = Inr (acc @ root_inputs ms)"
  by (induction ms arbitrary: acc)
     (simp_all add: root_inputs_def get_inputs_model_append_semantics)

lemma get_inputs_append_semantics:
  "get_inputs (\<lambda>v. Inr [v]) ms = Inr (root_inputs ms)"
  by (simp add: get_inputs_def get_inputs_loop_append_semantics)

text \<open>
  C1. The claim is that \<open>get_inputs()\<close> on the pipeline \<open>U1\<close>, \<open>U2\<close> returns the
  one-element list of the leaf \<open>x\<close>. The code passes \<open>x\<close> to \<open>extend\<close>, so the
  result is what iterating \<open>x\<close> gives: for a matrix variable the TypeError of the
  iteration, and the list \<open>[x]\<close> of the documentation only if \<open>x\<close> yields itself.
\<close>

theorem get_inputs_extend_iterates:
  "get_inputs iterate [U1, U2] = iterate x_var
   \<and> get_inputs iterate_matrix [U1, U2] = Inl TypeError
   \<and> root_inputs [U1, U2] = [x_var]"
proof -
  have "get_inputs iterate [U1, U2] = iterate x_var"
    by (cases "iterate x_var") (simp_all add: get_inputs_def U1_def U2_def x_var_def h_var_def)
  moreover have "get_inputs iterate_matrix [U1, U2] = Inl TypeError"
    by (simp add: get_inputs_def U1_def x_var_def iterate_matrix_def)
  moreover have "root_inputs [U1, U2] = [x_var]"
    by (simp add: root_inputs_def is_leaf_def U1_def U2_def x_var_def h_var_def)
  ultimately show ?thesis by blast
qed

subsection \<open>Prediction\<close>

lemma get_outputs_cases:
  "get_outputs ms = (Inr None, [no_models_warning]) \<or> (\<exists>v. get_outputs ms = (Inr v, []))"
  by (cases "ms = []") (simp_all add: get_outputs_def list_index_last)

lemma msgs_distinct:
  "no_models_warning \<noteq> compiling_msg" "compiled_msg \<noteq> compiling_msg"
  by (simp_all add: no_models_warning_def compiling_msg_def compiled_msg_def)

lemma predict_cached:
  "f_predict self = Some f \<Longrightarrow>
     predict iterate compile call input self h = (call f input, self, h)"
  by (simp add: predict_def)

lemma exec_cached:
  "f_predict (fst st) = Some f \<Longrightarrow>
     f_predict (fst (exec iterate compile call st c)) = Some f
     \<and> log (fst (exec iterate compile call st c)) = log (fst st)
     \<and> snd (exec iterate compile call st c) = snd st"
  by (cases c) (simp_all add: exec_def add_def predict_cached)

lemma run_cached:
  "f_predict (fst st) = Some f \<Longrightarrow>
     f_predict (fst (run iterate compile call st cs)) = Some f
     \<and> log (fst (run iterate compile call st cs)) = log (fst st)
     \<and> snd (run iterate compile call st cs) = snd st"
proof (induction cs arbitrary: st)
  case Nil
  then show ?case by (simp add: run_def)
next
  case (Cons c cs)
  from exec_cached [OF Cons.prems, of iterate compile call c]
  have 1: "f_predict (fst (exec iterate compile call st c)) = Some f"
    and 2: "log (fst (exec iterate compile call st c)) = log (fst st)"
    and 3: "snd (exec iterate compile call st c) = snd st" by simp_all
  from Cons.IH [OF 1] 2 3 show ?case by (simp add: run_def)
qed

lemma predict_first:
  assumes "f_predict self = None"
      and "get_inputs iterate (models self) = Inr ins"
      and "get_outputs (models self) = (Inr outs, w)"
      and "get_updates h (models self) = (upd, h')"
      and "compile ins outs (map_option h' upd) = Inr f"
  shows "predict iterate compile call input self h =
           (call f input,
            self\<lparr>f_predict := Some f, log := log self @ w @ [compiling_msg, compiled_msg]\<rparr>,
            h')"
  using assms by (simp add: predict_def)

text \<open>
  When the build raises, the exception reaches the caller and nothing is cached.
\<close>

lemma predict_get_inputs_raises:
  assumes "f_predict self = None"
      and "get_inputs iterate (models self) = Inl e"
  shows "predict iterate compile call input self h = (Inl e, self, h)"
  using assms by (simp add: predict_def)

lemma predict_compile_raises:
  assumes "f_predict self = None"
      and "get_inputs iterate (models self) = Inr ins"
      and "get_outputs (models self) = (Inr outs, w)"
      and "get_updates h (models self) = (upd, h')"
      and "compile ins outs (map_option h' upd) = Inl e"
  shows "predict iterate compile call input self h =
           (Inl e, self\<lparr>log := log self @ w @ [compiling_msg]\<rparr>, h')"
  using assms by (simp add: predict_def)

text \<open>
  On the container that holds \<open>U1\<close>, whose input is a leaf matrix, the build stops in
  \<open>get_inputs\<close>: the call raises TypeError, and the container and the store are as
  before.
\<close>

lemma predict_matrix_input_raises:
  "predict iterate_matrix compile call input (add U1 init) h
     = (Inl TypeError, add U1 init, h)"
  by (rule predict_get_inputs_raises)
     (simp_all add: add_def init_def get_inputs_def U1_def x_var_def iterate_matrix_def)

text \<open>
  C3, as stated, fails. On the container \<open>one_model\<close> the engine refuses to compile the
  graph of the first \<open>predict\<close> call: the call raises and caches nothing. After
  \<open>add(U3)\<close> the second \<open>predict\<close> call compiles again, a second compilation, and what
  it caches is built from the snapshot of the second call.
\<close>

theorem predict_failed_build_counterexample:
  "fst (predict iterate_matrix compile_picky call_echo 5 one_model store0) = Inl EngineError
   \<and> f_predict (fst (run iterate_matrix compile_picky call_echo (one_model, store0)
        [Predict 5])) = None
   \<and> f_predict (fst (run iterate_matrix compile_picky call_echo (one_model, store0)
        [Predict 5, Add U3, Predict 6])) = Some ([], Some 3, None)
   \<and> compilations (fst (run iterate_matrix compile_picky call_echo (one_model, store0)
        [Predict 5, Add U3, Predict 6])) = 2"
  by (simp add: run_def exec_def predict_def one_model_def add_def init_def get_inputs_def
      get_outputs_def get_updates_def list_index_def U2_def U3_def h_var_def
      compile_picky_def compilations_def compiling_msg_def compiled_msg_def)

text \<open>
  C3, amended. Take a \<open>predict\<close> call on a container without \<open>f_predict\<close> in which
  \<open>get_inputs\<close> returns. If the compilation raises, the call raises the same error and
  caches nothing, so the next call compiles again. If the compilation returns, the call
  has compiled once, from the inputs, outputs and updates of that moment, and has stored
  the compiled function; after it, whatever \<open>add\<close> and \<open>predict\<close> calls follow,
  \<open>f_predict\<close> is that same function, no further compilation is started, and every
  \<open>predict\<close> call returns what that function returns and leaves the container and the
  store as they are.
\<close>

theorem predict_compiles_once:
  assumes "f_predict self = None"
      and "get_inputs iterate (models self) = Inr ins"
      and "get_outputs (models self) = (Inr outs, w)"
      and "get_updates h (models self) = (upd, h')"
  shows "(compile ins outs (map_option h' upd) = Inl e \<longrightarrow>
            fst (predict iterate compile call input self h) = Inl e
          \<and> f_predict (fst (snd (predict iterate compile call input self h))) = None
          \<and> compilations (fst (snd (predict iterate compile call input self h)))
              = compilations self + 1)
    \<and> (compile ins outs (map_option h' upd) = Inr f \<longrightarrow>
            fst (predict iterate compile call input self h) = call f input
          \<and> f_predict (fst (snd (predict iterate compile call input self h))) = Some f
          \<and> compilations (fst (snd (predict iterate compile call input self h)))
              = compilations self + 1
          \<and> (\<forall>cs input'.
                f_predict (fst (run iterate compile call
                    (snd (predict iterate compile call input self h)) cs)) = Some f
              \<and> compilations (fst (run iterate compile call
                    (snd (predict iterate compile call input self h)) cs))
                  = compilations self + 1
              \<and> predict iterate compile call input'
                    (fst (run iterate compile call
                       (snd (predict iterate compile call input self h)) cs))
                    (snd (run iterate compile call
                       (snd (predict iterate compile call input self h)) cs))
                  = (call f input',
                     run iterate compile call
                       (snd (predict iterate compile call input self h)) cs)))"
proof (intro conjI impI)
  have w: "w = [no_models_warning] \<or> w = []"
    using get_outputs_cases [of "models self"] assms(3) by auto
  {
    assume "compile ins outs (map_option h' upd) = Inl e"
    with assms have p: "predict iterate compile call input self h =
        (Inl e, self\<lparr>log := log self @ w @ [compiling_msg]\<rparr>, h')"
      by (rule predict_compile_raises)
    show "fst (predict iterate compile call input self h) = Inl e" by (simp add: p)
    show "f_predict (fst (snd (predict iterate compile call input self h))) = None"
      by (simp add: p assms(1))
    show "compilations (fst (snd (predict iterate compile call input self h)))
        = compilations self + 1"
      using w by (auto simp: p compilations_def msgs_distinct)
  }
  assume "compile ins outs (map_option h' upd) = Inr f"
  with assms have p: "predict iterate compile call input self h =
      (call f input,
       self\<lparr>f_predict := Some f, log := log self @ w @ [compiling_msg, compiled_msg]\<rparr>,
       h')"
    by (rule predict_first)
  let ?st = "snd (predict iterate compile call input self h)"
  show "fst (predict iterate compile call input self h) = call f input" by (simp add: p)
  show f: "f_predict (fst ?st) = Some f" by (simp add: p)
  show c: "compilations (fst ?st) = compilations self + 1"
    using w by (auto simp: p compilations_def msgs_distinct)
  have r: "f_predict (fst (run iterate compile call ?st cs)) = Some f
      \<and> log (fst (run iterate compile call ?st cs)) = log (fst ?st)
      \<and> snd (run iterate compile call ?st cs) = snd ?st" for cs
    using f by (rule run_cached)
  have "compilations (fst (run iterate compile call ?st cs)) = compilations self + 1" for cs
    using r [of cs] c by (simp add: compilations_def)
  moreover have "predict iterate compile call input' (fst (run iterate compile call ?st cs))
      (snd (run iterate compile call ?st cs))
      = (call f input', run iterate compile call ?st cs)" for cs input'
  proof -
    have "f_predict (fst (run iterate compile call ?st cs)) = Some f"
      using r [of cs] by blast
    then have "predict iterate compile call input' (fst (run iterate compile call ?st cs))
        (snd (run iterate compile call ?st cs))
        = (call f input', fst (run iterate compile call ?st cs),
           snd (run iterate compile call ?st cs))"
      by (rule predict_cached)
    then show ?thesis by (simp only: prod.collapse)
  qed
  ultimately show "\<forall>cs input'.
                f_predict (fst (run iterate compile call ?st cs)) = Some f
              \<and> compilations (fst (run iterate compile call ?st cs)) = compilations self + 1
              \<and> predict iterate compile call input'
                    (fst (run iterate compile call ?st cs))
                    (snd (run iterate compile call ?st cs))
                  = (call f input', run iterate compile call ?st cs)"
    using r by blast
qed

theorem predict_compiles_once_witness:
  "f_predict one_model = None
   \<and> get_inputs iterate_matrix (models one_model) = Inr []
   \<and> fst (predict iterate_matrix compile_picky call_echo 5 one_model store0) = Inl EngineError
   \<and> f_predict (fst (snd (predict iterate_matrix compile_picky call_echo 5 one_model store0)))
       = None
   \<and> fst (predict iterate_matrix compile_snapshot call_echo 5 one_model store0) = Inr 5
   \<and> f_predict (fst (run iterate_matrix compile_snapshot call_echo
        (snd (predict iterate_matrix compile_snapshot call_echo 5 one_model store0))
        [Add U1, Predict 6])) = Some ([], Some 2, None)
   \<and> compilations (fst (run iterate_matrix compile_snapshot call_echo
        (snd (predict iterate_matrix compile_snapshot call_echo 5 one_model store0))
        [Add U1, Predict 6])) = 1"
proof -
  have 1: "f_predict one_model = None"
    by (simp add: one_model_def add_def init_def)
  have 2: "get_inputs iterate_matrix (models one_model) = Inr []"
    by (simp add: one_model_def add_def init_def get_inputs_def U2_def h_var_def)
  have 3: "get_outputs (models one_model) = (Inr (Some 2), [])"
    by (simp add: one_model_def add_def init_def get_outputs_def list_index_def U2_def)
  have 4: "get_updates store0 (models one_model) = (None, store0)"
    by (simp add: one_model_def add_def init_def get_updates_def U2_def)
  have 5: "compilations one_model = 0"
    by (simp add: compilations_def one_model_def add_def init_def)
  have 6: "compile_picky [] (Some 2) (map_option store0 None) = Inl EngineError"
    by (simp add: compile_picky_def)
  have 7: "compile_snapshot [] (Some 2) (map_option store0 None) = Inr ([], Some 2, None)"
    by (simp add: compile_snapshot_def)
  from predict_compiles_once [where self = one_model and iterate = iterate_matrix
      and compile = compile_picky and call = call_echo and input = 5 and e = EngineError,
      OF 1 2 3 4] 6
  have a: "fst (predict iterate_matrix compile_picky call_echo 5 one_model store0)
        = Inl EngineError
      \<and> f_predict (fst (snd (predict iterate_matrix compile_picky call_echo 5 one_model
          store0))) = None"
    by blast
  from predict_compiles_once [where self = one_model and iterate = iterate_matrix
      and compile = compile_snapshot and call = call_echo and input = 5
      and f = "([], Some 2, None)", OF 1 2 3 4] 7 5
  have b: "fst (predict iterate_matrix compile_snapshot call_echo 5 one_model store0)
        = call_echo ([], Some 2, None) 5
      \<and> f_predict (fst (run iterate_matrix compile_snapshot call_echo
        (snd (predict iterate_matrix compile_snapshot call_echo 5 one_model store0))
        [Add U1, Predict 6])) = Some ([], Some 2, None)
   \<and> compilations (fst (run iterate_matrix compile_snapshot call_echo
        (snd (predict iterate_matrix compile_snapshot call_echo 5 one_model store0))
        [Add U1, Predict 6])) = 1"
    by simp
  from 1 2 a b show ?thesis by (simp add: call_echo_def)
qed

end
